theory Spec2Isabelle
  imports Complex_Main
begin

section \<open>Numbers, errors and array helpers\<close>

text \<open>
  The tabulated numbers of an emissivity file (grids, bin edges, emissivities) and the
  requested energies are modelled as real numbers: rounding, overflow and signed zeros of
  float64 are not modelled. Where the source lets IEEE special values decide something (a
  quotient with a zero denominator, the logarithm of a non-positive number, NaN cells of a
  catalog) the value is an \<open>fl\<close>: a real, an infinity or NaN, with the arithmetic numpy
  performs on them.
\<close>

datatype fl = Fin real | PInf | NInf | NaN

datatype error =
    OSError | KeyError | AttributeError | IndexError | ValueError
  | EnergyBoundsException real real
  | NotModelled

text \<open>
  \<open>NotModelled\<close> is not a Python exception: it marks the one place where numpy would go on
  with infinite or NaN table entries (photon mode with a bin whose midpoint energy is zero),
  which a real-valued table cannot hold.
\<close>

text \<open>\<open>a / b\<close> on float64 scalars: no exception, a zero denominator gives an infinity or NaN.\<close>

definition np_divide :: "real \<Rightarrow> real \<Rightarrow> fl" where
  "np_divide a b =
     (if b \<noteq> 0 then Fin (a / b)
      else if 0 < a then PInf
      else if a < 0 then NInf
      else NaN)"

text \<open>IEEE comparison \<open><\<close>: false as soon as one side is NaN.\<close>

fun fl_less :: "fl \<Rightarrow> fl \<Rightarrow> bool" where
  "fl_less NaN _ = False"
| "fl_less _ NaN = False"
| "fl_less (Fin a) (Fin b) = (a < b)"
| "fl_less (Fin a) PInf = True"
| "fl_less (Fin a) NInf = False"
| "fl_less PInf _ = False"
| "fl_less NInf NInf = False"
| "fl_less NInf _ = True"

text \<open>\<open>xs[i:j]\<close> for indices \<open>0 \<le> i\<close>, \<open>0 \<le> j\<close>: never raises, empty when \<open>j \<le> i\<close>.\<close>

definition py_slice :: "'a list \<Rightarrow> nat \<Rightarrow> nat \<Rightarrow> 'a list" where
  "py_slice xs i j = drop i (take j xs)"

text \<open>\<open>np.diff(xs)\<close> is \<open>xs[1:] - xs[:-1]\<close>.\<close>

definition np_diff :: "real list \<Rightarrow> real list" where
  "np_diff xs = map (\<lambda>(a, b). b - a) (zip (butlast xs) (tl xs))"

text \<open>
  \<open>np.digitize(x, bins)\<close> with \<open>right=False\<close>: for increasing bins the number of bins
  \<open>\<le> x\<close> (a right-sided binary search), for decreasing bins the number of bins \<open>> x\<close>,
  ValueError when the bins are not monotonic.
\<close>

definition np_digitize :: "real \<Rightarrow> real list \<Rightarrow> error + nat" where
  "np_digitize x bins =
     (if sorted bins then Inr (length (filter (\<lambda>b. b \<le> x) bins))
      else if sorted (rev bins) then Inr (length (filter (\<lambda>b. x < b) bins))
      else Inl ValueError)"

text \<open>\<open>np.clip(v, lo, hi)\<close> is \<open>minimum(maximum(v, lo), hi)\<close>.\<close>

definition np_clip :: "int \<Rightarrow> int \<Rightarrow> int \<Rightarrow> int" where
  "np_clip v lo hi = min (max v lo) hi"

section \<open>The emissivity table and the integrator\<close>

text \<open>
  An emissivity array has the energy bins on its last axis: \<open>Arr2\<close> is \<open>[T, N]\<close>
  (\<open>ndim == 2\<close>, a table over temperature only), \<open>Arr3\<close> is \<open>[nH, T, N]\<close>.
\<close>

datatype ndarray = Arr2 "real list list" | Arr3 "real list list list"

text \<open>The array summed over its last axis.\<close>

datatype surface = Surf1 "real list" | Surf2 "real list list"







record integrator =
  log_T :: "real list"
  emissivity_primordial :: ndarray
  log_nH :: "real list option"
  emissivity_metals :: "ndarray option"
  ebin :: "real list"
  dE :: "real list"
  emid :: "real list"
  redshift :: real

text \<open>
  \<open>emid = 0.5 * (ebin[1:] + ebin[:-1]).to("erg")\<close>: the conversion applies to the sum,
  the factor one half afterwards.
\<close>

definition bin_midpoints_erg :: "real \<Rightarrow> real list \<Rightarrow> real list" where
  "bin_midpoints_erg c E = map (\<lambda>(a, b). 0.5 * ((b + a) * c)) (zip (butlast E) (tl E))"


section \<open>Band integration: \<open>get_interpolator\<close>\<close>

text \<open>\<open>getattr(self, f"emissivity_{data_type}")\<close>; the metals attribute exists only when
  the integrator was built with \<open>use_metals\<close>.\<close>

definition get_emissivity :: "integrator \<Rightarrow> string \<Rightarrow> error + ndarray" where
  "get_emissivity s data_type =
     (if data_type = ''primordial'' then Inr (emissivity_primordial s)
      else if data_type = ''metals'' then
        (case emissivity_metals s of None \<Rightarrow> Inl AttributeError | Some d \<Rightarrow> Inr d)
      else Inl AttributeError)"

text \<open>The first error of a list of results, or all the values.\<close>

fun sequence_e :: "(error + 'a) list \<Rightarrow> error + 'a list" where
  "sequence_e [] = Inr []"
| "sequence_e (Inl e # _) = Inl e"
| "sequence_e (Inr x # rs) = (case sequence_e rs of Inl e \<Rightarrow> Inl e | Inr xs \<Rightarrow> Inr (x # xs))"

text \<open>
  An elementwise operation of a row of the last axis with a vector, under numpy's
  broadcasting: equal lengths, or one operand of length one; ValueError otherwise.
\<close>

definition np_broadcast2 ::
  "(real \<Rightarrow> real \<Rightarrow> real) \<Rightarrow> real list \<Rightarrow> real list \<Rightarrow> error + real list" where
  "np_broadcast2 f xs ys =
     (if length xs = length ys then Inr (map (\<lambda>(x, y). f x y) (zip xs ys))
      else if length xs = 1 then Inr (map (\<lambda>y. f (hd xs) y) ys)
      else if length ys = 1 then Inr (map (\<lambda>x. f x (hd ys)) xs)
      else Inl ValueError)"

text \<open>\<open>data[..., :] / self.emid.v\<close>: a new array, each row divided by the midpoint energies.\<close>

definition divide_row :: "real list \<Rightarrow> real list \<Rightarrow> error + real list" where
  "divide_row em row =
     (case np_broadcast2 (\<lambda>x y. x / y) row em of
        Inl e \<Rightarrow> Inl e
      | Inr r \<Rightarrow> if 0 \<in> set em then Inl NotModelled else Inr r)"

definition photon_data :: "real list \<Rightarrow> ndarray \<Rightarrow> error + ndarray" where
  "photon_data em d =
     (case d of
        Arr2 a \<Rightarrow> map_sum id Arr2 (sequence_e (map (divide_row em) a))
      | Arr3 a \<Rightarrow>
          map_sum id Arr3 (sequence_e (map (\<lambda>p. sequence_e (map (divide_row em) p)) a)))"

text \<open>
  The requested band is rejected when
  \<open>(e_min - ebin[0]) / e_min < -1e-3 or (e_max - ebin[-1]) / e_max > 1e-3\<close>.
\<close>

definition energy_out_of_bounds :: "real \<Rightarrow> real \<Rightarrow> real \<Rightarrow> real \<Rightarrow> bool" where
  "energy_out_of_bounds e_min e_max lo hi \<longleftrightarrow>
     fl_less (np_divide (e_min - lo) e_min) (Fin (- 0.001)) \<or>
     fl_less (Fin 0.001) (np_divide (e_max - hi) e_max)"

text \<open>
  \<open>e_is, e_ie = np.digitize([e_min, e_max], self.ebin)\<close> followed by the two
  \<open>np.clip\<close> calls.
\<close>

definition bracket :: "real list \<Rightarrow> real \<Rightarrow> real \<Rightarrow> error + nat \<times> nat" where
  "bracket E e_min e_max =
     (case np_digitize e_min E of
        Inl e \<Rightarrow> Inl e
      | Inr d_min \<Rightarrow>
     (case np_digitize e_max E of
        Inl e \<Rightarrow> Inl e
      | Inr d_max \<Rightarrow>
          Inr (nat (np_clip (int d_min - 1) 0 (int (length E) - 1)),
               nat (np_clip (int d_max) 0 (int (length E) - 1)))))"

text \<open>
  \<open>my_dE = self.dE[e_is:e_ie].copy()\<close>, then \<open>my_dE[0] -= e_min - self.ebin[e_is]\<close> and
  \<open>my_dE[-1] -= self.ebin[e_ie] - e_max\<close>. Both indices are at most \<open>len(ebin) - 1\<close>, so
  the reads of \<open>ebin\<close> are in range; indexing an empty \<open>my_dE\<close> raises IndexError.
\<close>

definition clipped_widths ::
  "real list \<Rightarrow> real list \<Rightarrow> nat \<Rightarrow> nat \<Rightarrow> real \<Rightarrow> real \<Rightarrow> error + real list" where
  "clipped_widths E widths e_is e_ie e_min e_max =
     (let my_dE = py_slice widths e_is e_ie
      in if my_dE = [] then Inl IndexError
         else
           (let w1 = my_dE[0 := my_dE ! 0 - (e_min - E ! e_is)];
                k = length w1 - 1
            in Inr (w1[k := w1 ! k - (E ! e_ie - e_max)])))"

text \<open>\<open>(data[..., e_is:e_ie] * my_dE).sum(axis=-1)\<close> for one row of the last axis.\<close>

definition integrate_row :: "nat \<Rightarrow> nat \<Rightarrow> real list \<Rightarrow> real list \<Rightarrow> error + real" where
  "integrate_row e_is e_ie my_dE row =
     map_sum id sum_list (np_broadcast2 (\<lambda>x y. x * y) (py_slice row e_is e_ie) my_dE)"

definition sum_last_axis :: "nat \<Rightarrow> nat \<Rightarrow> real list \<Rightarrow> ndarray \<Rightarrow> error + surface" where
  "sum_last_axis e_is e_ie my_dE d =
     (case d of
        Arr2 a \<Rightarrow> map_sum id Surf1 (sequence_e (map (integrate_row e_is e_ie my_dE) a))
      | Arr3 a \<Rightarrow>
          map_sum id Surf2
            (sequence_e (map (\<lambda>p. sequence_e (map (integrate_row e_is e_ie my_dE) p)) a)))"

text \<open>Lines 100 to 103: the selected array, divided by \<open>emid\<close> in photon mode.\<close>

definition selected_data :: "integrator \<Rightarrow> string \<Rightarrow> bool \<Rightarrow> error + ndarray" where
  "selected_data s data_type energy =
     (case get_emissivity s data_type of
        Inl e \<Rightarrow> Inl e
      | Inr data \<Rightarrow> if \<not> energy then photon_data (emid s) data else Inr data)"

text \<open>
  Lines 104 to 119 of \<open>get_interpolator\<close>: the band is moved to the rest frame, checked,
  bracketed, and \<open>data\<close> is summed over the energy axis with the clipped widths.
\<close>

definition integrate_band ::
  "integrator \<Rightarrow> ndarray \<Rightarrow> real \<Rightarrow> real \<Rightarrow> error + surface" where
  "integrate_band s data e_min e_max =
     (let e_min' = e_min * (1 + redshift s);
          e_max' = e_max * (1 + redshift s)
      in if ebin s = [] then Inl IndexError
         else if energy_out_of_bounds e_min' e_max' (hd (ebin s)) (last (ebin s))
         then Inl (EnergyBoundsException (hd (ebin s)) (last (ebin s)))
         else
     (case bracket (ebin s) e_min' e_max' of
        Inl e \<Rightarrow> Inl e
      | Inr (e_is, e_ie) \<Rightarrow>
     (case clipped_widths (ebin s) (dE s) e_is e_ie e_min' e_max' of
        Inl e \<Rightarrow> Inl e
      | Inr my_dE \<Rightarrow> sum_last_axis e_is e_ie my_dE data)))"

text \<open>
  Lines 100 to 119 of \<open>get_interpolator\<close>: everything up to \<open>interp_data\<close>, the summed
  surface. It is \<open>Surf1\<close> exactly when \<open>data.ndim == 2\<close>.
\<close>

definition interp_data ::
  "integrator \<Rightarrow> string \<Rightarrow> real \<Rightarrow> real \<Rightarrow> bool \<Rightarrow> error + surface" where
  "interp_data s data_type e_min e_max energy =
     (case selected_data s data_type energy of
        Inl e \<Rightarrow> Inl e
      | Inr data \<Rightarrow> integrate_band s data e_min e_max)"

text \<open>\<open>np.log10\<close> of a real: minus infinity at zero, NaN below.\<close>

definition np_log10 :: "real \<Rightarrow> fl" where
  "np_log10 x = (if 0 < x then Fin (log 10 x) else if x = 0 then NInf else NaN)"

text \<open>
  The two interpolator objects as their constructors receive them: the table and the two
  (or four) boundary values; \<open>truncate=True\<close> in both calls.
\<close>

datatype interpolator =
    UnilinearFieldInterpolator "fl list" real real
  | BilinearFieldInterpolator "fl list list" real real real real

text \<open>
  Lines 120 to 135: the logarithm of the surface goes to a one-dimensional interpolator over
  \<open>[log_T[0], log_T[-1]]\<close> when \<open>data.ndim == 2\<close>, to a two-dimensional one over
  \<open>[log_nH[0], log_nH[-1], log_T[0], log_T[-1]]\<close> otherwise.
\<close>

definition make_interpolator :: "integrator \<Rightarrow> surface \<Rightarrow> error + interpolator" where
  "make_interpolator s surf =
     (case surf of
        Surf1 v \<Rightarrow>
          (if log_T s = [] then Inl IndexError
           else Inr (UnilinearFieldInterpolator (map np_log10 v) (hd (log_T s)) (last (log_T s))))
      | Surf2 v \<Rightarrow>
          (case log_nH s of
             None \<Rightarrow> Inl AttributeError
           | Some lnH \<Rightarrow>
               if lnH = [] \<or> log_T s = [] then Inl IndexError
               else Inr (BilinearFieldInterpolator (map (map np_log10) v)
                           (hd lnH) (last lnH) (hd (log_T s)) (last (log_T s)))))"

definition get_interpolator ::
  "integrator \<Rightarrow> string \<Rightarrow> real \<Rightarrow> real \<Rightarrow> bool \<Rightarrow> error + interpolator" where
  "get_interpolator s data_type e_min e_max energy =
     (case interp_data s data_type e_min e_max energy of
        Inl e \<Rightarrow> Inl e
      | Inr surf \<Rightarrow> make_interpolator s surf)"

section \<open>A small table\<close>

text \<open>
  A table over temperature only: \<open>logT = [6, 7, 8]\<close>, bin edges \<open>E = [0.1, 1, 10]\<close> keV,
  emissivity \<open>1e-23\<close> in both bins at every temperature, as \<open>__init__\<close> would load it at
  redshift zero (with \<open>1.602176634e-9\<close> erg per keV).
\<close>

definition small_table :: integrator where
  "small_table =
     \<lparr> log_T = [6, 7, 8],
       emissivity_primordial =
         Arr2 [[1 / 10 ^ 23, 1 / 10 ^ 23], [1 / 10 ^ 23, 1 / 10 ^ 23], [1 / 10 ^ 23, 1 / 10 ^ 23]],
       log_nH = None,
       emissivity_metals = None,
       ebin = [1 / 10, 1, 10],
       dE = np_diff [1 / 10, 1, 10],
       emid = bin_midpoints_erg (1602176634 / 10 ^ 18) [1 / 10, 1, 10],
       redshift = 0 \<rparr>"

section \<open>The bounds check in the words of the specification\<close>



text \<open>
  What the two quotients of the source decide, without the division: the tolerance is a
  fraction of the requested energy, not of the table's edge, only the lower end \<open>a\<close> is
  compared with the first edge and only the upper end \<open>b\<close> with the last edge, and the
  comparison turns around for a negative requested energy.
\<close>

definition band_rejected :: "real \<Rightarrow> real \<Rightarrow> real \<Rightarrow> real \<Rightarrow> bool" where
  "band_rejected lo hi a b \<longleftrightarrow>
     (0 \<le> a \<and> a + 0.001 * a < lo) \<or> (a < 0 \<and> lo < a + 0.001 * a) \<or>
     (0 \<le> b \<and> hi < b - 0.001 * b) \<or> (b < 0 \<and> b - 0.001 * b < hi)"


section \<open>The band integral in the words of the specification\<close>

text \<open>
  The tabulated emissivity is constant on each bin: \<open>row ! i\<close> on \<open>[E ! i, E ! (i + 1)]\<close>.
  Its exact integral over the band \<open>[a, b]\<close> weighs each bin by the length of its
  intersection with the band.
\<close>

definition overlap :: "real \<Rightarrow> real \<Rightarrow> real \<Rightarrow> real \<Rightarrow> real" where
  "overlap lo hi a b = max 0 (min hi b - max lo a)"

definition band_integral :: "real list \<Rightarrow> real list \<Rightarrow> real \<Rightarrow> real \<Rightarrow> real" where
  "band_integral E row a b =
     sum_list (map (\<lambda>i. row ! i * overlap (E ! i) (E ! Suc i) a b) [0..<length row])"

text \<open>A function of the rows of the last axis, applied over the remaining axes.\<close>

definition surface_of :: "(real list \<Rightarrow> real) \<Rightarrow> ndarray \<Rightarrow> surface" where
  "surface_of f d =
     (case d of
        Arr2 rows \<Rightarrow> Surf1 (map f rows)
      | Arr3 planes \<Rightarrow> Surf2 (map (map f) planes))"

definition band_surface :: "real list \<Rightarrow> ndarray \<Rightarrow> real \<Rightarrow> real \<Rightarrow> surface" where
  "band_surface E d a b = surface_of (\<lambda>r. band_integral E r a b) d"

text \<open>The file format's invariant: the last axis of an emissivity array has \<open>n\<close> entries.\<close>

definition last_axis_is :: "nat \<Rightarrow> ndarray \<Rightarrow> bool" where
  "last_axis_is n d =
     (case d of
        Arr2 rows \<Rightarrow> list_all (\<lambda>r. length r = n) rows
      | Arr3 planes \<Rightarrow> list_all (list_all (\<lambda>r. length r = n)) planes)"

text \<open>
  A table as \<open>__init__\<close> leaves it, with its file well formed: non-empty, increasing,
  non-negative bin edges, the widths their differences, and the selected array \<open>d\<close> with one
  entry per bin on its last axis.
\<close>

definition band_ready :: "integrator \<Rightarrow> string \<Rightarrow> bool \<Rightarrow> ndarray \<Rightarrow> bool" where
  "band_ready s data_type energy d \<longleftrightarrow>
     ebin s \<noteq> [] \<and> sorted (ebin s) \<and> 0 \<le> hd (ebin s) \<and>
     dE s = np_diff (ebin s) \<and>
     selected_data s data_type energy = Inr d \<and>
     last_axis_is (length (ebin s) - 1) d"

text \<open>
  The entry of \<open>my_dE\<close> for bin \<open>i\<close> when the bracketed bins are \<open>k, \<dots>, l - 1\<close>: the bin
  runs from \<open>a\<close> instead of its lower edge when it is the first, and up to \<open>b\<close> instead of
  its upper edge when it is the last.
\<close>

definition clipped_width :: "real list \<Rightarrow> nat \<Rightarrow> nat \<Rightarrow> real \<Rightarrow> real \<Rightarrow> nat \<Rightarrow> real" where
  "clipped_width E k l a b i =
     (if i = l - 1 then b else E ! Suc i) - (if i = k then a else E ! i)"

text \<open>A table with a single energy bin \<open>[lo, hi]\<close> and one temperature.\<close>

definition one_bin_table :: "real \<Rightarrow> real \<Rightarrow> real \<Rightarrow> integrator" where
  "one_bin_table lo hi v =
     \<lparr> log_T = [6],
       emissivity_primordial = Arr2 [[v]],
       log_nH = None,
       emissivity_metals = None,
       ebin = [lo, hi],
       dE = np_diff [lo, hi],
       emid = bin_midpoints_erg (1602176634 / 10 ^ 18) [lo, hi],
       redshift = 0 \<rparr>"

section \<open>Photon-count mode in the words of the specification\<close>



section \<open>A small data file\<close>




section \<open>The integrator as an object on a heap of arrays\<close>

text \<open>
  To see what \<open>get_interpolator\<close> does to the integrator's own arrays, the arrays live in
  buffers on a heap and the integrator's attributes hold their addresses. A one-dimensional
  array object is a window \<open>[start, stop)\<close> on a buffer: slicing gives another window on the
  same buffer, \<open>.copy()\<close> and arithmetic allocate a new buffer, and an indexed \<open>-=\<close> writes
  into the buffer the window lies on.
\<close>

type_synonym addr = nat

datatype buffer = Vec "real list" | Arr ndarray

record integrator_obj =
  log_T_ref :: addr
  emissivity_primordial_ref :: addr
  log_nH_ref :: "addr option"
  emissivity_metals_ref :: "addr option"
  ebin_ref :: addr
  dE_ref :: addr
  emid_ref :: addr
  redshift_val :: real

record pystate =
  self :: integrator_obj
  cells :: "addr \<Rightarrow> buffer option"
  next_addr :: addr

text \<open>Reading an attribute's array; an address always holds the right kind of array.\<close>

definition read_vec :: "pystate \<Rightarrow> addr \<Rightarrow> real list" where
  "read_vec st a = (case cells st a of Some (Vec xs) \<Rightarrow> xs | _ \<Rightarrow> [])"

definition read_arr :: "pystate \<Rightarrow> addr \<Rightarrow> ndarray" where
  "read_arr st a = (case cells st a of Some (Arr d) \<Rightarrow> d | _ \<Rightarrow> Arr2 [])"

definition alloc :: "buffer \<Rightarrow> pystate \<Rightarrow> addr \<times> pystate" where
  "alloc b st =
     (next_addr st,
      st\<lparr>cells := (cells st)(next_addr st \<mapsto> b), next_addr := Suc (next_addr st)\<rparr>)"

record view =
  base :: addr
  start :: nat
  stop :: nat

definition whole :: "pystate \<Rightarrow> addr \<Rightarrow> view" where
  "whole st a = \<lparr>base = a, start = 0, stop = length (read_vec st a)\<rparr>"

definition view_slice :: "view \<Rightarrow> nat \<Rightarrow> nat \<Rightarrow> view" where
  "view_slice v i j =
     \<lparr>base = base v, start = min (start v + i) (stop v), stop = min (start v + j) (stop v)\<rparr>"

definition view_contents :: "pystate \<Rightarrow> view \<Rightarrow> real list" where
  "view_contents st v = py_slice (read_vec st (base v)) (start v) (stop v)"

definition view_copy :: "pystate \<Rightarrow> view \<Rightarrow> view \<times> pystate" where
  "view_copy st v =
     (case alloc (Vec (view_contents st v)) st of
        (a, st') \<Rightarrow> (whole st' a, st'))"

text \<open>\<open>v[i] -= x\<close> for an index \<open>i\<close> inside the window.\<close>

definition view_isub :: "pystate \<Rightarrow> view \<Rightarrow> nat \<Rightarrow> real \<Rightarrow> pystate" where
  "view_isub st v i x =
     (let buf = read_vec st (base v)
      in st\<lparr>cells := (cells st)(base v \<mapsto> Vec (buf[start v + i := buf ! (start v + i) - x]))\<rparr>)"

definition getattr_emissivity :: "integrator_obj \<Rightarrow> string \<Rightarrow> error + addr" where
  "getattr_emissivity ob data_type =
     (if data_type = ''primordial'' then Inr (emissivity_primordial_ref ob)
      else if data_type = ''metals'' then
        (case emissivity_metals_ref ob of None \<Rightarrow> Inl AttributeError | Some a \<Rightarrow> Inr a)
      else Inl AttributeError)"

text \<open>The integrator's state: the arrays its attributes point to, and the redshift.\<close>

definition the_integrator :: "pystate \<Rightarrow> integrator" where
  "the_integrator st =
     \<lparr> log_T = read_vec st (log_T_ref (self st)),
       emissivity_primordial = read_arr st (emissivity_primordial_ref (self st)),
       log_nH = map_option (read_vec st) (log_nH_ref (self st)),
       emissivity_metals = map_option (read_arr st) (emissivity_metals_ref (self st)),
       ebin = read_vec st (ebin_ref (self st)),
       dE = read_vec st (dE_ref (self st)),
       emid = read_vec st (emid_ref (self st)),
       redshift = redshift_val (self st) \<rparr>"

text \<open>Every array of the integrator was allocated before the call.\<close>

definition wf_state :: "pystate \<Rightarrow> bool" where
  "wf_state st \<longleftrightarrow>
     log_T_ref (self st) < next_addr st \<and>
     emissivity_primordial_ref (self st) < next_addr st \<and>
     (case log_nH_ref (self st) of None \<Rightarrow> True | Some a \<Rightarrow> a < next_addr st) \<and>
     (case emissivity_metals_ref (self st) of None \<Rightarrow> True | Some a \<Rightarrow> a < next_addr st) \<and>
     ebin_ref (self st) < next_addr st \<and>
     dE_ref (self st) < next_addr st \<and>
     emid_ref (self st) < next_addr st"

text \<open>
  \<open>get_interpolator\<close>, statement by statement, on the heap. \<open>data\<close> first aliases the
  integrator's array; the photon-mode division rebinds it to a new array.
\<close>

definition select_data_st ::
  "pystate \<Rightarrow> string \<Rightarrow> bool \<Rightarrow> (error + addr) \<times> pystate" where
  "select_data_st st data_type energy =
     (case getattr_emissivity (self st) data_type of
        Inl e \<Rightarrow> (Inl e, st)
      | Inr data \<Rightarrow>
          if \<not> energy
          then (case photon_data (read_vec st (emid_ref (self st))) (read_arr st data) of
                  Inl e \<Rightarrow> (Inl e, st)
                | Inr d \<Rightarrow> (case alloc (Arr d) st of (a, st') \<Rightarrow> (Inr a, st')))
          else (Inr data, st))"

text \<open>
  \<open>my_dE\<close> is the copy of a slice of \<open>self.dE\<close>, and the two \<open>-=\<close> write into that copy;
  \<open>self.ebin\<close> is read again for each of them.
\<close>

definition my_dE_st ::
  "pystate \<Rightarrow> nat \<Rightarrow> nat \<Rightarrow> real \<Rightarrow> real \<Rightarrow> (error + view) \<times> pystate" where
  "my_dE_st st e_is e_ie e_min e_max =
     (case view_copy st (view_slice (whole st (dE_ref (self st))) e_is e_ie) of
        (my_dE, st2) \<Rightarrow>
          if stop my_dE - start my_dE = 0 then (Inl IndexError, st2)
          else
            (let st3 = view_isub st2 my_dE 0
                         (e_min - read_vec st2 (ebin_ref (self st2)) ! e_is);
                 st4 = view_isub st3 my_dE (stop my_dE - start my_dE - 1)
                         (read_vec st3 (ebin_ref (self st3)) ! e_ie - e_max)
             in (Inr my_dE, st4)))"

definition integrate_band_st ::
  "pystate \<Rightarrow> addr \<Rightarrow> real \<Rightarrow> real \<Rightarrow> (error + surface) \<times> pystate" where
  "integrate_band_st st data e_min e_max =
     (let e_min' = e_min * (1 + redshift_val (self st));
          e_max' = e_max * (1 + redshift_val (self st));
          E = read_vec st (ebin_ref (self st))
      in if E = [] then (Inl IndexError, st)
         else if energy_out_of_bounds e_min' e_max' (hd E) (last E)
         then (Inl (EnergyBoundsException (hd E) (last E)), st)
         else
     (case bracket E e_min' e_max' of
        Inl e \<Rightarrow> (Inl e, st)
      | Inr (e_is, e_ie) \<Rightarrow>
     (case my_dE_st st e_is e_ie e_min' e_max' of
        (Inl e, st4) \<Rightarrow> (Inl e, st4)
      | (Inr my_dE, st4) \<Rightarrow>
          (sum_last_axis e_is e_ie (view_contents st4 my_dE) (read_arr st4 data), st4))))"

text \<open>
  The interpolator keeps its own copy of the table (\<open>table.astype\<close>) and the boundary
  values, and is returned as a value.
\<close>

definition get_interpolator_st ::
  "pystate \<Rightarrow> string \<Rightarrow> real \<Rightarrow> real \<Rightarrow> bool \<Rightarrow> (error + interpolator) \<times> pystate" where
  "get_interpolator_st st data_type e_min e_max energy =
     (case select_data_st st data_type energy of
        (Inl e, st1) \<Rightarrow> (Inl e, st1)
      | (Inr data, st1) \<Rightarrow>
     (case integrate_band_st st1 data e_min e_max of
        (Inl e, st4) \<Rightarrow> (Inl e, st4)
      | (Inr surf, st4) \<Rightarrow> (make_interpolator (the_integrator st4) surf, st4)))"

text \<open>Nothing allocated below \<open>n\<close> has changed, and the attributes are the same.\<close>

definition unchanged_below :: "nat \<Rightarrow> pystate \<Rightarrow> pystate \<Rightarrow> bool" where
  "unchanged_below n st st' \<longleftrightarrow>
     self st' = self st \<and> n \<le> next_addr st' \<and> (\<forall>p<n. cells st' p = cells st p)"

text \<open>
  The small table as an object: five buffers, no density grid and no metals, redshift zero.
\<close>

definition small_state :: pystate where
  "small_state =
     \<lparr> self = \<lparr> log_T_ref = 0, emissivity_primordial_ref = 1, log_nH_ref = None,
                emissivity_metals_ref = None, ebin_ref = 2, dE_ref = 3, emid_ref = 4,
                redshift_val = 0 \<rparr>,
       cells = [0 \<mapsto> Vec [6, 7, 8],
                1 \<mapsto> Arr (Arr2 [[1 / 10 ^ 23, 1 / 10 ^ 23], [1 / 10 ^ 23, 1 / 10 ^ 23],
                                  [1 / 10 ^ 23, 1 / 10 ^ 23]]),
                2 \<mapsto> Vec [1 / 10, 1, 10],
                3 \<mapsto> Vec [9 / 10, 9],
                4 \<mapsto> Vec [1 / 10, 1]],
       next_addr = 5 \<rparr>"

section \<open>Bracketing lemmas\<close>

lemma sorted_le_last: "sorted (E::real list) \<Longrightarrow> b \<in> set E \<Longrightarrow> b \<le> last E"
  by (induction E) (auto split: if_splits)

lemma digitize_ge_last:
  assumes "sorted E" "E \<noteq> []" "last E \<le> x"
  shows "np_digitize x E = Inr (length E)"
proof -
  have "\<forall>b \<in> set E. b \<le> x"
    using sorted_le_last[OF assms(1)] assms(3) by fastforce
  then show ?thesis using assms by (simp add: np_digitize_def)
qed

lemma bracket_at_last:
  assumes "sorted E" "E \<noteq> []" "last E \<le> a"
  shows "\<exists>j. bracket E a b = Inr (length E - 1, j) \<and> j \<le> length E - 1"
  using assms digitize_ge_last[OF assms]
  by (auto simp: bracket_def np_digitize_def np_clip_def split: if_splits sum.splits)

lemma clipped_widths_empty: "j \<le> i \<Longrightarrow> clipped_widths E w i j a b = Inl IndexError"
  by (simp add: clipped_widths_def py_slice_def)

section \<open>A band starting at or above the last bin edge\<close>

text \<open>
  C10. Some requests pass the energy bounds check and still yield no interpolator: when the
  rest-frame \<open>e_min\<close> is at or above the last bin edge (which the check allows, for instance
  \<open>e_min = e_max = E[-1]\<close>), both bracketing indices clamp to the last edge, the slice of
  widths is empty, and indexing its first element raises IndexError rather than
  EnergyBoundsException.
\<close>

theorem get_interpolator_index_error_at_last_edge:
  assumes "sorted (ebin s)" and "ebin s \<noteq> []"
    and "selected_data s data_type energy = Inr d"
    and "\<not> energy_out_of_bounds (e_min * (1 + redshift s)) (e_max * (1 + redshift s))
           (hd (ebin s)) (last (ebin s))"
    and "last (ebin s) \<le> e_min * (1 + redshift s)"
  shows "get_interpolator s data_type e_min e_max energy = Inl IndexError"
proof -
  obtain j where
    "bracket (ebin s) (e_min * (1 + redshift s)) (e_max * (1 + redshift s))
       = Inr (length (ebin s) - 1, j)"
    and "j \<le> length (ebin s) - 1"
    using bracket_at_last[OF assms(1,2,5)] by blast
  then show ?thesis
    using assms(2,3,4)
    by (simp add: get_interpolator_def make_interpolator_def interp_data_def integrate_band_def clipped_widths_empty Let_def)
qed

theorem get_interpolator_index_error_at_last_edge_witness:
  "sorted (ebin small_table) \<and> ebin small_table \<noteq> [] \<and>
   selected_data small_table ''primordial'' True
     = Inr (emissivity_primordial small_table) \<and>
   \<not> energy_out_of_bounds (10 * (1 + redshift small_table))
        (10 * (1 + redshift small_table))
        (hd (ebin small_table)) (last (ebin small_table)) \<and>
   last (ebin small_table) \<le> 10 * (1 + redshift small_table) \<and>
   get_interpolator small_table ''primordial'' 10 10 True = Inl IndexError"
proof -
  have h1: "sorted (ebin small_table)" by (simp add: small_table_def)
  have h2: "ebin small_table \<noteq> []" by (simp add: small_table_def)
  have h3: "selected_data small_table ''primordial'' True
              = Inr (emissivity_primordial small_table)"
    by (simp add: selected_data_def get_emissivity_def)
  have h4: "\<not> energy_out_of_bounds (10 * (1 + redshift small_table))
        (10 * (1 + redshift small_table))
        (hd (ebin small_table)) (last (ebin small_table))"
    by (simp add: small_table_def energy_out_of_bounds_def np_divide_def)
  have h5: "last (ebin small_table) \<le> 10 * (1 + redshift small_table)"
    by (simp add: small_table_def)
  show ?thesis
    using get_interpolator_index_error_at_last_edge[OF h1 h2 h3 h4 h5] h1 h2 h3 h4 h5
    by simp
qed

section \<open>The energy bounds check\<close>

lemma lower_quotient:
  "fl_less (np_divide (a - lo) a) (Fin (- 0.001)) \<longleftrightarrow>
     (0 \<le> a \<and> a + 0.001 * a < lo) \<or> (a < 0 \<and> lo < a + 0.001 * a)"
proof -
  consider "0 < a" | "a < 0" | "a = 0" by linarith
  then show ?thesis
  proof cases
    case 1
    then have "(a - lo) / a < - 0.001 \<longleftrightarrow> a - lo < - 0.001 * a"
      by (simp add: pos_divide_less_eq)
    then show ?thesis using 1 by (auto simp: np_divide_def)
  next
    case 2
    then have "(a - lo) / a < - 0.001 \<longleftrightarrow> - 0.001 * a < a - lo"
      by (simp add: neg_divide_less_eq)
    then show ?thesis using 2 by (auto simp: np_divide_def)
  next
    case 3
    then show ?thesis by (auto simp: np_divide_def)
  qed
qed

lemma upper_quotient:
  "fl_less (Fin 0.001) (np_divide (b - hi) b) \<longleftrightarrow>
     (0 \<le> b \<and> hi < b - 0.001 * b) \<or> (b < 0 \<and> b - 0.001 * b < hi)"
proof -
  consider "0 < b" | "b < 0" | "b = 0" by linarith
  then show ?thesis
  proof cases
    case 1
    then have "0.001 < (b - hi) / b \<longleftrightarrow> 0.001 * b < b - hi"
      by (simp add: pos_less_divide_eq)
    then show ?thesis using 1 by (auto simp: np_divide_def)
  next
    case 2
    then have "0.001 < (b - hi) / b \<longleftrightarrow> b - hi < 0.001 * b"
      by (simp add: neg_less_divide_eq)
    then show ?thesis using 2 by (auto simp: np_divide_def)
  next
    case 3
    then show ?thesis by (auto simp: np_divide_def)
  qed
qed

lemma energy_out_of_bounds_rejected:
  "energy_out_of_bounds a b lo hi \<longleftrightarrow> band_rejected lo hi a b"
  unfolding energy_out_of_bounds_def band_rejected_def lower_quotient upper_quotient
  by blast















section \<open>The clipped sum is the exact band integral\<close>

lemma filter_le_sorted_nth:
  "sorted (E::real list) \<Longrightarrow> i < length E \<Longrightarrow>
     (E ! i \<le> x \<longleftrightarrow> i < length (filter (\<lambda>b. b \<le> x) E))"
proof (induction E arbitrary: i)
  case Nil
  then show ?case by simp
next
  case (Cons e es)
  show ?case
  proof (cases "e \<le> x")
    case True
    with Cons show ?thesis by (cases i) auto
  next
    case False
    with Cons.prems have "\<forall>b\<in>set es. \<not> b \<le> x" by auto
    then have "filter (\<lambda>b. b \<le> x) es = []" by (simp add: filter_empty_conv)
    moreover have "\<not> (e # es) ! i \<le> x"
      using False Cons.prems by (cases i) (auto simp: \<open>\<forall>b\<in>set es. \<not> b \<le> x\<close>)
    ultimately show ?thesis using False by simp
  qed
qed

lemma np_diff_length [simp]: "length (np_diff E) = length E - 1"
  by (simp add: np_diff_def)

lemma np_diff_nth: "Suc i < length E \<Longrightarrow> np_diff E ! i = E ! Suc i - E ! i"
  by (simp add: np_diff_def nth_butlast nth_tl)

lemma bracket_inside:
  assumes "sorted E" "E \<noteq> []" "hd E \<le> a" "a \<le> b" "b \<le> last E" "a < last E"
  shows "\<exists>k l. bracket E a b = Inr (k, l) \<and> k < l \<and> l \<le> length E - 1 \<and>
           E ! k \<le> a \<and> a \<le> E ! Suc k \<and> E ! (l - 1) \<le> b \<and> b \<le> E ! l"
proof -
  define n where "n = length E"
  define da where "da = length (filter (\<lambda>x. x \<le> a) E)"
  define db where "db = length (filter (\<lambda>x. x \<le> b) E)"
  have npos: "0 < n" using assms(2) by (simp add: n_def)
  have nth_a: "\<And>i. i < n \<Longrightarrow> (E ! i \<le> a \<longleftrightarrow> i < da)"
    unfolding da_def n_def using filter_le_sorted_nth[OF assms(1)] by blast
  have nth_b: "\<And>i. i < n \<Longrightarrow> (E ! i \<le> b \<longleftrightarrow> i < db)"
    unfolding db_def n_def using filter_le_sorted_nth[OF assms(1)] by blast
  have hd0: "E ! 0 = hd E" using assms(2) by (simp add: hd_conv_nth)
  have lastn: "E ! (n - 1) = last E" using assms(2) by (simp add: last_conv_nth n_def)
  have da_pos: "0 < da" using nth_a[of 0] npos hd0 assms(3) by simp
  have da_lt: "da \<le> n - 1"
  proof (rule ccontr)
    assume "\<not> da \<le> n - 1"
    then have "n - 1 < da" by simp
    then have "E ! (n - 1) \<le> a" using nth_a[of "n - 1"] npos by simp
    then show False using lastn assms(6) by simp
  qed
  have db_le: "db \<le> n" unfolding db_def n_def by simp
  have da_db: "da \<le> db"
  proof -
    have "da - 1 < n" using da_lt npos by simp
    moreover have "E ! (da - 1) \<le> a" using nth_a[of "da - 1"] da_pos da_lt npos by simp
    ultimately have "da - 1 < db" using nth_b[of "da - 1"] assms(4) by simp
    then show ?thesis using da_pos by simp
  qed
  define k where "k = da - 1"
  define l where "l = min db (n - 1)"
  have e_is: "nat (np_clip (int da - 1) 0 (int n - 1)) = k"
    using da_pos da_lt by (auto simp: np_clip_def k_def)
  have e_ie: "nat (np_clip (int db) 0 (int n - 1)) = l"
    using npos by (auto simp: np_clip_def l_def)
  have "np_digitize a E = Inr da" "np_digitize b E = Inr db"
    using assms(1) by (simp_all add: np_digitize_def da_def db_def)
  then have br: "bracket E a b = Inr (k, l)"
    using e_is e_ie by (simp add: bracket_def n_def)
  have kl: "k < l" unfolding k_def l_def using da_pos da_lt da_db by auto
  have l_le: "l \<le> n - 1" unfolding l_def by simp
  have Ek: "E ! k \<le> a" using nth_a[of k] da_pos da_lt npos by (simp add: k_def)
  have Ek1: "a \<le> E ! Suc k"
  proof -
    have "Suc k = da" using da_pos by (simp add: k_def)
    moreover have "da < n" using da_lt npos by simp
    ultimately have "\<not> E ! Suc k \<le> a" using nth_a[of da] by simp
    then show ?thesis by simp
  qed
  have El1: "E ! (l - 1) \<le> b"
  proof -
    have "l - 1 < db" unfolding l_def using da_pos da_db by auto
    moreover have "l - 1 < n" using l_le npos by simp
    ultimately show ?thesis using nth_b[of "l - 1"] by simp
  qed
  have El: "b \<le> E ! l"
  proof (cases "db \<le> n - 1")
    case True
    then have "l = db" by (simp add: l_def)
    moreover have "db < n" using True npos by simp
    ultimately have "\<not> E ! l \<le> b" using nth_b[of db] by simp
    then show ?thesis by simp
  next
    case False
    then have "l = n - 1" by (simp add: l_def)
    then show ?thesis using lastn assms(5) by simp
  qed
  show ?thesis using br kl l_le Ek Ek1 El1 El by (auto simp: n_def)
qed

lemma py_slice_nth:
  "l \<le> length xs \<Longrightarrow> py_slice xs k l = map (\<lambda>i. xs ! i) [k..<l]"
  by (auto intro!: nth_equalityI simp: py_slice_def)

lemma clipped_widths_inside:
  assumes "k < l" "l \<le> length E - 1"
  shows "clipped_widths E (np_diff E) k l a b = Inr (map (clipped_width E k l a b) [k..<l])"
proof -
  have sl: "py_slice (np_diff E) k l = map (\<lambda>i. E ! Suc i - E ! i) [k..<l]"
    using assms by (auto intro!: nth_equalityI simp: py_slice_def np_diff_nth)
  have ne: "map (\<lambda>i. E ! Suc i - E ! i) [k..<l] \<noteq> []" using assms(1) by simp
  define w0 where "w0 = map (\<lambda>i. E ! Suc i - E ! i) [k..<l]"
  define w1 where "w1 = w0[0 := w0 ! 0 - (a - E ! k)]"
  have "w1[length w1 - 1 := w1 ! (length w1 - 1) - (E ! l - b)]
          = map (clipped_width E k l a b) [k..<l]"
    using assms(1)
    by (auto intro!: nth_equalityI simp: nth_list_update clipped_width_def w1_def w0_def)
  then show ?thesis
    using ne by (simp add: clipped_widths_def sl Let_def w1_def w0_def)
qed

lemma integrate_row_inside:
  assumes "l \<le> length row"
  shows "integrate_row k l (map f [k..<l]) row
           = Inr (sum_list (map (\<lambda>i. row ! i * f i) [k..<l]))"
proof -
  have "map (\<lambda>(x, y). x * y) (zip (map (\<lambda>i. row ! i) [k..<l]) (map f [k..<l]))
          = map (\<lambda>i. row ! i * f i) [k..<l]"
    by (auto intro!: nth_equalityI)
  then show ?thesis
    using assms by (simp add: integrate_row_def np_broadcast2_def py_slice_nth)
qed

lemma overlap_inside:
  assumes "sorted E" "k < l" "l < length E" "k \<le> i" "i < l"
    and "E ! k \<le> a" "a \<le> E ! Suc k" "E ! (l - 1) \<le> b" "b \<le> E ! l" "a \<le> b"
  shows "overlap (E ! i) (E ! Suc i) a b = clipped_width E k l a b i"
proof -
  note mono = sorted_nth_mono[OF assms(1)]
  have lo: "max (E ! i) a = (if i = k then a else E ! i)"
  proof (cases "i = k")
    case True
    then show ?thesis using assms(6) by simp
  next
    case False
    then have "Suc k \<le> i" using assms(4) by simp
    then have "E ! Suc k \<le> E ! i" using mono[of "Suc k" i] assms(3,5) by simp
    then show ?thesis using False assms(7) by simp
  qed
  have hi: "min (E ! Suc i) b = (if i = l - 1 then b else E ! Suc i)"
  proof (cases "i = l - 1")
    case True
    then have "Suc i = l" using assms(2) by simp
    then show ?thesis using True assms(9) by simp
  next
    case False
    then have "Suc i \<le> l - 1" using assms(5) by simp
    then have "E ! Suc i \<le> E ! (l - 1)" using mono[of "Suc i" "l - 1"] assms(3) by simp
    then show ?thesis using False assms(8) by simp
  qed
  have nonneg: "0 \<le> (if i = l - 1 then b else E ! Suc i) - (if i = k then a else E ! i)"
  proof -
    have 1: "E ! i \<le> E ! Suc i" using mono[of i "Suc i"] assms(3,5) by simp
    have 2: "i \<noteq> k \<Longrightarrow> E ! i \<le> b"
    proof -
      assume "i \<noteq> k"
      have "E ! i \<le> E ! (l - 1)" using mono[of i "l - 1"] assms(3,5) by simp
      then show "E ! i \<le> b" using assms(8) by simp
    qed
    have 3: "i \<noteq> l - 1 \<Longrightarrow> a \<le> E ! Suc i"
    proof -
      assume "i \<noteq> l - 1"
      have "E ! Suc k \<le> E ! Suc i" using mono[of "Suc k" "Suc i"] assms(3,4,5) by simp
      then show "a \<le> E ! Suc i" using assms(7) by simp
    qed
    show ?thesis using 1 2 3 assms(10) by auto
  qed
  show ?thesis
    unfolding overlap_def clipped_width_def lo hi using nonneg by simp
qed

lemma overlap_below:
  assumes "sorted E" "Suc i \<le> k" "k < length E" "E ! k \<le> a"
  shows "overlap (E ! i) (E ! Suc i) a b = 0"
proof -
  have "E ! Suc i \<le> E ! k" using assms(1,2,3) by (simp add: sorted_nth_mono)
  then show ?thesis using assms(4) by (simp add: overlap_def)
qed

lemma overlap_above:
  assumes "sorted E" "l \<le> i" "i < length E" "b \<le> E ! l"
  shows "overlap (E ! i) (E ! Suc i) a b = 0"
proof -
  have "E ! l \<le> E ! i" using assms(1,2,3) by (simp add: sorted_nth_mono)
  then show ?thesis using assms(4) by (simp add: overlap_def)
qed

lemma sum_list_map_zero:
  "(\<And>x. x \<in> set xs \<Longrightarrow> f x = (0::real)) \<Longrightarrow> sum_list (map f xs) = 0"
  by (induction xs) auto

lemma band_integral_inside:
  assumes "sorted E" "k < l" "l \<le> length E - 1" "length row = length E - 1"
    and "E ! k \<le> a" "a \<le> E ! Suc k" "E ! (l - 1) \<le> b" "b \<le> E ! l" "a \<le> b"
  shows "band_integral E row a b
           = sum_list (map (\<lambda>i. row ! i * clipped_width E k l a b i) [k..<l])"
proof -
  define n where "n = length E - 1"
  have lE: "l < length E" using assms(2,3) by simp
  have ln: "l + (n - l) = n" using assms(3) by (simp add: n_def)
  have kl: "k + (l - k) = l" using assms(2) by simp
  have "[0..<n] = [0..<l] @ [l..<n]"
    using upt_add_eq_append[of 0 l "n - l"] unfolding ln by simp
  moreover have "[0..<l] = [0..<k] @ [k..<l]"
    using upt_add_eq_append[of 0 k "l - k"] unfolding kl by simp
  ultimately have split: "[0..<n] = [0..<k] @ [k..<l] @ [l..<n]" by simp
  have z1: "sum_list (map (\<lambda>i. row ! i * overlap (E ! i) (E ! Suc i) a b) [0..<k]) = 0"
  proof -
    have "\<And>i. i \<in> set [0..<k] \<Longrightarrow> row ! i * overlap (E ! i) (E ! Suc i) a b = 0"
    proof -
      fix i assume "i \<in> set [0..<k]"
      then have "Suc i \<le> k" "k < length E" using assms(2) lE by auto
      then show "row ! i * overlap (E ! i) (E ! Suc i) a b = 0"
        using overlap_below[OF assms(1) _ _ assms(5), of i b] by simp
    qed
    then show ?thesis by (rule sum_list_map_zero)
  qed
  have z3: "sum_list (map (\<lambda>i. row ! i * overlap (E ! i) (E ! Suc i) a b) [l..<n]) = 0"
  proof -
    have "\<And>i. i \<in> set [l..<n] \<Longrightarrow> row ! i * overlap (E ! i) (E ! Suc i) a b = 0"
    proof -
      fix i assume "i \<in> set [l..<n]"
      then have "l \<le> i" "i < length E" by (auto simp: n_def)
      then show "row ! i * overlap (E ! i) (E ! Suc i) a b = 0"
        using overlap_above[OF assms(1) _ _ assms(8), of i a] by simp
    qed
    then show ?thesis by (rule sum_list_map_zero)
  qed
  have mid: "map (\<lambda>i. row ! i * overlap (E ! i) (E ! Suc i) a b) [k..<l]
               = map (\<lambda>i. row ! i * clipped_width E k l a b i) [k..<l]"
    using overlap_inside[OF assms(1,2) lE _ _ assms(5,6,7,8,9)] by simp
  show ?thesis
    unfolding band_integral_def assms(4) n_def[symmetric] split
    by (simp add: z1 z3 mid)
qed

lemma sequence_e_map_Inr:
  "(\<And>x. x \<in> set xs \<Longrightarrow> f x = Inr (g x)) \<Longrightarrow> sequence_e (map f xs) = Inr (map g xs)"
  by (induction xs) auto

lemma sum_last_axis_rows:
  assumes "\<And>r. length r = n \<Longrightarrow> integrate_row k l w r = Inr (g r)"
    and "last_axis_is n d"
  shows "sum_last_axis k l w d = Inr (surface_of g d)"
proof (cases d)
  case (Arr2 rows)
  then have "\<And>r. r \<in> set rows \<Longrightarrow> integrate_row k l w r = Inr (g r)"
    using assms by (auto simp: last_axis_is_def list_all_iff)
  then have "sequence_e (map (integrate_row k l w) rows) = Inr (map g rows)"
    by (rule sequence_e_map_Inr)
  then show ?thesis using Arr2 by (simp add: sum_last_axis_def surface_of_def)
next
  case (Arr3 planes)
  have "\<And>p. p \<in> set planes \<Longrightarrow> sequence_e (map (integrate_row k l w) p) = Inr (map g p)"
  proof -
    fix p assume "p \<in> set planes"
    then have "\<And>r. r \<in> set p \<Longrightarrow> integrate_row k l w r = Inr (g r)"
      using assms Arr3 by (auto simp: last_axis_is_def list_all_iff)
    then show "sequence_e (map (integrate_row k l w) p) = Inr (map g p)"
      by (rule sequence_e_map_Inr)
  qed
  then have "sequence_e (map (\<lambda>p. sequence_e (map (integrate_row k l w) p)) planes)
               = Inr (map (map g) planes)"
    by (rule sequence_e_map_Inr)
  then show ?thesis using Arr3 by (simp add: sum_last_axis_def surface_of_def)
qed

lemma in_range_not_out_of_bounds:
  assumes "0 < a" "lo \<le> a" "a \<le> b" "b \<le> hi"
  shows "\<not> energy_out_of_bounds a b lo hi"
proof -
  have "0 < b" using assms by simp
  then show ?thesis
    using assms by (simp add: energy_out_of_bounds_rejected band_rejected_def)
qed

lemma interp_data_inside:
  assumes "band_ready s dt en d"
    and "0 < e_min * (1 + redshift s)"
    and "hd (ebin s) \<le> e_min * (1 + redshift s)"
    and "e_min * (1 + redshift s) \<le> e_max * (1 + redshift s)"
    and "e_max * (1 + redshift s) \<le> last (ebin s)"
    and "e_min * (1 + redshift s) < last (ebin s)"
  shows "interp_data s dt e_min e_max en
           = Inr (band_surface (ebin s) d (e_min * (1 + redshift s)) (e_max * (1 + redshift s)))"
proof -
  define a where "a = e_min * (1 + redshift s)"
  define b where "b = e_max * (1 + redshift s)"
  define E where "E = ebin s"
  have ne: "E \<noteq> []" and srt: "sorted E" and dE: "dE s = np_diff E"
    and sel: "selected_data s dt en = Inr d" and ax: "last_axis_is (length E - 1) d"
    using assms(1) by (simp_all add: band_ready_def E_def)
  have h: "hd E \<le> a" "a \<le> b" "b \<le> last E" "a < last E" "0 < a"
    using assms(2-6) by (simp_all add: a_def b_def E_def)
  obtain k l where br: "bracket E a b = Inr (k, l)" and kl: "k < l" and l: "l \<le> length E - 1"
    and Ek: "E ! k \<le> a" "a \<le> E ! Suc k" and El: "E ! (l - 1) \<le> b" "b \<le> E ! l"
    using bracket_inside[OF srt ne h(1-4)] by blast
  have cw: "clipped_widths E (np_diff E) k l a b = Inr (map (clipped_width E k l a b) [k..<l])"
    using clipped_widths_inside[OF kl l] .
  have row: "\<And>r. length r = length E - 1 \<Longrightarrow>
               integrate_row k l (map (clipped_width E k l a b) [k..<l]) r
                 = Inr (band_integral E r a b)"
  proof -
    fix r :: "real list" assume len: "length r = length E - 1"
    have "integrate_row k l (map (clipped_width E k l a b) [k..<l]) r
            = Inr (sum_list (map (\<lambda>i. r ! i * clipped_width E k l a b i) [k..<l]))"
      using integrate_row_inside[of l r k] l len by simp
    then show "integrate_row k l (map (clipped_width E k l a b) [k..<l]) r
                 = Inr (band_integral E r a b)"
      using band_integral_inside[OF srt kl l len Ek El h(2)] by simp
  qed
  have sla: "sum_last_axis k l (map (clipped_width E k l a b) [k..<l]) d
               = Inr (band_surface E d a b)"
    unfolding band_surface_def using sum_last_axis_rows[OF row ax] by simp
  have nob: "\<not> energy_out_of_bounds a b (hd E) (last E)"
    using in_range_not_out_of_bounds[OF h(5) h(1) h(2) h(3)] .
  show ?thesis
    unfolding a_def[symmetric] b_def[symmetric] E_def[symmetric]
    using sel ne nob br cw sla dE
    by (simp add: interp_data_def integrate_band_def a_def[symmetric] b_def[symmetric] E_def[symmetric] Let_def)
qed

text \<open>
  C1. For a loaded, well-formed table and a band whose rest-frame image lies strictly inside
  the table's energy range, the summed surface (the bracketed widths copied, the first shrunk
  by \<open>e_min - E[e_is]\<close>, the last by \<open>E[e_ie] - e_max\<close>, times the tabulated values, summed
  over the energy axis) is the exact integral of the piecewise-constant tabulated emissivity
  over the band. In particular the table with \<open>logT = [6, 7, 8]\<close>, \<open>E = [0.1, 1, 10]\<close> and
  emissivity \<open>1e-23\<close> gives \<open>1e-23 * ((1 - 0.5) + (5 - 1))\<close> at every grid node for the
  band \<open>[0.5, 5]\<close> at redshift zero.
\<close>

theorem interp_data_is_band_integral:
  assumes "band_ready s data_type energy d"
    and "hd (ebin s) < e_min * (1 + redshift s)"
    and "e_min * (1 + redshift s) \<le> e_max * (1 + redshift s)"
    and "e_max * (1 + redshift s) < last (ebin s)"
  shows "interp_data s data_type e_min e_max energy
           = Inr (band_surface (ebin s) d (e_min * (1 + redshift s)) (e_max * (1 + redshift s)))
       \<and> interp_data small_table ''primordial'' (1 / 2) 5 True
           = Inr (Surf1 [1 / 10 ^ 23 * ((1 - 1 / 2) + (5 - 1)),
                         1 / 10 ^ 23 * ((1 - 1 / 2) + (5 - 1)),
                         1 / 10 ^ 23 * ((1 - 1 / 2) + (5 - 1))])"
proof
  have "0 \<le> hd (ebin s)" using assms(1) by (simp add: band_ready_def)
  then have pos: "0 < e_min * (1 + redshift s)" using assms(2) by simp
  show "interp_data s data_type e_min e_max energy
          = Inr (band_surface (ebin s) d (e_min * (1 + redshift s)) (e_max * (1 + redshift s)))"
    using interp_data_inside[OF assms(1) pos _ assms(3)] assms(2,3,4) by simp
next
  have r: "band_ready small_table ''primordial'' True (emissivity_primordial small_table)"
    by (simp add: band_ready_def small_table_def selected_data_def get_emissivity_def
                  last_axis_is_def)
  have "interp_data small_table ''primordial'' (1 / 2) 5 True
          = Inr (band_surface (ebin small_table) (emissivity_primordial small_table)
                   (1 / 2 * (1 + redshift small_table)) (5 * (1 + redshift small_table)))"
    by (rule interp_data_inside[OF r]) (simp_all add: small_table_def)
  then show "interp_data small_table ''primordial'' (1 / 2) 5 True
           = Inr (Surf1 [1 / 10 ^ 23 * ((1 - 1 / 2) + (5 - 1)),
                         1 / 10 ^ 23 * ((1 - 1 / 2) + (5 - 1)),
                         1 / 10 ^ 23 * ((1 - 1 / 2) + (5 - 1))])"
    by (simp add: small_table_def band_surface_def surface_of_def band_integral_def
                  overlap_def upt_rec)
qed

theorem interp_data_is_band_integral_witness:
  "band_ready small_table ''primordial'' True (emissivity_primordial small_table) \<and>
   hd (ebin small_table) < 2 * (1 + redshift small_table) \<and>
   2 * (1 + redshift small_table) \<le> 3 * (1 + redshift small_table) \<and>
   3 * (1 + redshift small_table) < last (ebin small_table) \<and>
   interp_data small_table ''primordial'' 2 3 True
     = Inr (Surf1 [1 / 10 ^ 23, 1 / 10 ^ 23, 1 / 10 ^ 23])"
proof -
  have h1: "band_ready small_table ''primordial'' True
              (emissivity_primordial small_table)"
    by (simp add: band_ready_def small_table_def selected_data_def get_emissivity_def
                  last_axis_is_def)
  have h2: "hd (ebin small_table) < 2 * (1 + redshift small_table)"
    by (simp add: small_table_def)
  have h3: "2 * (1 + redshift small_table) \<le> 3 * (1 + redshift small_table)"
    by (simp add: small_table_def)
  have h4: "3 * (1 + redshift small_table) < last (ebin small_table)"
    by (simp add: small_table_def)
  have "interp_data small_table ''primordial'' 2 3 True
          = Inr (band_surface (ebin small_table) (emissivity_primordial small_table)
                   (2 * (1 + redshift small_table)) (3 * (1 + redshift small_table)))"
    using interp_data_is_band_integral[OF h1 h2 h3 h4] by simp
  then have "interp_data small_table ''primordial'' 2 3 True
          = Inr (Surf1 [1 / 10 ^ 23, 1 / 10 ^ 23, 1 / 10 ^ 23])"
    by (simp add: small_table_def band_surface_def surface_of_def band_integral_def
                  overlap_def upt_rec)
  then show ?thesis using h1 h2 h3 h4 by simp
qed

section \<open>Exact-bin identities of the clipped integral\<close>

lemma surface_of_cong:
  assumes "last_axis_is n d" and "\<And>r. length r = n \<Longrightarrow> f r = g r"
  shows "surface_of f d = surface_of g d"
proof (cases d)
  case (Arr2 rows)
  then have "\<And>r. r \<in> set rows \<Longrightarrow> f r = g r"
    using assms by (auto simp: last_axis_is_def list_all_iff)
  then show ?thesis using Arr2 by (simp add: surface_of_def)
next
  case (Arr3 planes)
  then have "\<And>p r. p \<in> set planes \<Longrightarrow> r \<in> set p \<Longrightarrow> f r = g r"
    using assms by (auto simp: last_axis_is_def list_all_iff)
  then have "\<And>p. p \<in> set planes \<Longrightarrow> map f p = map g p" by simp
  then show ?thesis using Arr3 by (simp add: surface_of_def)
qed

lemma sorted_hd_le_nth: "sorted (E::real list) \<Longrightarrow> i < length E \<Longrightarrow> hd E \<le> E ! i"
  using sorted_nth_mono[of E 0 i] by (cases E) auto

lemma sorted_nth_le_last: "sorted (E::real list) \<Longrightarrow> i < length E \<Longrightarrow> E ! i \<le> last E"
  using sorted_le_last[of E "E ! i"] by simp

lemma one_bin_integral:
  assumes "band_ready s dt en d" and "redshift s = 0" and "ebin s = [lo, hi]"
    and "0 < lo" and "lo < hi"
  shows "interp_data s dt lo hi en = Inr (surface_of (\<lambda>row. row ! 0 * (hi - lo)) d)"
proof -
  have ax: "last_axis_is 1 d" using assms(1,3) by (simp add: band_ready_def)
  have "interp_data s dt lo hi en = Inr (band_surface (ebin s) d lo hi)"
    using interp_data_inside[OF assms(1), of lo hi] assms(2-5) by simp
  moreover have "surface_of (\<lambda>r. band_integral [lo, hi] r lo hi) d
                   = surface_of (\<lambda>row. row ! 0 * (hi - lo)) d"
  proof (rule surface_of_cong[OF ax])
    fix r :: "real list" assume "length r = 1"
    then show "band_integral [lo, hi] r lo hi = r ! 0 * (hi - lo)"
      using assms(5) by (simp add: band_integral_def overlap_def)
  qed
  ultimately show ?thesis by (simp add: band_surface_def assms(3))
qed

lemma two_bins_integral:
  assumes "band_ready s dt en d" and "redshift s = 0"
    and "k + 2 < length (ebin s)" and "0 < ebin s ! k" and "ebin s ! k < ebin s ! (k + 2)"
  shows "interp_data s dt (ebin s ! k) (ebin s ! (k + 2)) en
           = Inr (surface_of
                    (\<lambda>row. row ! k * (ebin s ! (k + 1) - ebin s ! k)
                          + row ! (k + 1) * (ebin s ! (k + 2) - ebin s ! (k + 1))) d)"
proof -
  define E where "E = ebin s"
  have srt: "sorted E" and ax: "last_axis_is (length E - 1) d"
    using assms(1) by (simp_all add: band_ready_def E_def)
  have k2: "k + 2 < length E" using assms(3) by (simp add: E_def)
  have m1: "E ! k \<le> E ! Suc k" using sorted_nth_mono[OF srt, of k "Suc k"] k2 by simp
  have m2: "E ! Suc k \<le> E ! (k + 2)" using sorted_nth_mono[OF srt, of "Suc k" "k + 2"] k2 by simp
  have lt: "E ! k < last E"
    using sorted_nth_le_last[OF srt k2] assms(5) by (simp add: E_def)
  have "interp_data s dt (E ! k) (E ! (k + 2)) en
          = Inr (band_surface E d (E ! k) (E ! (k + 2)))"
    using interp_data_inside[OF assms(1), of "E ! k" "E ! (k + 2)"] assms(2,4,5) lt
      sorted_hd_le_nth[OF srt, of k] sorted_nth_le_last[OF srt k2] k2
    by (simp add: E_def)
  moreover have "surface_of (\<lambda>r. band_integral E r (E ! k) (E ! (k + 2))) d
                   = surface_of (\<lambda>row. row ! k * (E ! (k + 1) - E ! k)
                                       + row ! (k + 1) * (E ! (k + 2) - E ! (k + 1))) d"
  proof (rule surface_of_cong[OF ax])
    fix r :: "real list" assume len: "length r = length E - 1"
    have "band_integral E r (E ! k) (E ! (k + 2))
            = sum_list (map (\<lambda>i. r ! i * clipped_width E k (k + 2) (E ! k) (E ! (k + 2)) i)
                          [k..<k + 2])"
      by (rule band_integral_inside[OF srt _ _ len]) (use k2 m1 m2 assms(5) in \<open>simp_all add: E_def\<close>)
    moreover have "[k..<k + 2] = [k, Suc k]" by (simp add: upt_rec)
    ultimately show "band_integral E r (E ! k) (E ! (k + 2))
            = r ! k * (E ! (k + 1) - E ! k) + r ! (k + 1) * (E ! (k + 2) - E ! (k + 1))"
      by (simp add: clipped_width_def)
  qed
  ultimately show ?thesis by (simp add: band_surface_def E_def)
qed

lemma inside_one_bin_integral:
  assumes "band_ready s dt en d" and "redshift s = 0"
    and "Suc k < length (ebin s)"
    and "ebin s ! k < e_min" and "e_min \<le> e_max" and "e_max < ebin s ! Suc k"
  shows "interp_data s dt e_min e_max en
           = Inr (surface_of (\<lambda>row. row ! k * (e_max - e_min)) d)"
proof -
  define E where "E = ebin s"
  have srt: "sorted E" and ax: "last_axis_is (length E - 1) d" and nn: "0 \<le> hd E"
    using assms(1) by (simp_all add: band_ready_def E_def)
  have k1: "Suc k < length E" using assms(3) by (simp add: E_def)
  have lo: "hd E \<le> E ! k" using sorted_hd_le_nth[OF srt, of k] k1 by simp
  have hi: "E ! Suc k \<le> last E" using sorted_nth_le_last[OF srt k1] .
  have "interp_data s dt e_min e_max en = Inr (band_surface E d e_min e_max)"
    using interp_data_inside[OF assms(1), of e_min e_max] assms(2,4,5,6) lo hi nn
    by (simp add: E_def)
  moreover have "surface_of (\<lambda>r. band_integral E r e_min e_max) d
                   = surface_of (\<lambda>row. row ! k * (e_max - e_min)) d"
  proof (rule surface_of_cong[OF ax])
    fix r :: "real list" assume len: "length r = length E - 1"
    have "band_integral E r e_min e_max
            = sum_list (map (\<lambda>i. r ! i * clipped_width E k (Suc k) e_min e_max i) [k..<Suc k])"
      by (rule band_integral_inside[OF srt _ _ len])
         (use k1 assms(4,5,6) in \<open>simp_all add: E_def\<close>)
    then show "band_integral E r e_min e_max = r ! k * (e_max - e_min)"
      by (simp add: clipped_width_def)
  qed
  ultimately show ?thesis by (simp add: band_surface_def E_def)
qed

text \<open>
  C3. Three identities of the clipped integral at redshift zero, for well-formed tables.
  (1) A table with the single energy bin \<open>[lo, hi]\<close>, requested exactly: the result is the
  tabulated value times the bin width, nothing shrunk. (2) A band spanning exactly the two
  adjacent bins \<open>k\<close> and \<open>k + 1\<close>: the result is \<open>v1 * w1 + v2 * w2\<close>. (3) A band strictly
  inside the bin \<open>k\<close> (first and last clipped bin coincide, both shrinkages hit the same
  width): the result is \<open>v * (e_max - e_min)\<close>, strictly below \<open>v * W\<close> for positive \<open>v\<close>.
\<close>

theorem clipped_integral_exact_bin_identities:
  "(band_ready s1 dt1 en1 d1 \<and> redshift s1 = 0 \<and> ebin s1 = [lo, hi] \<and> 0 < lo \<and> lo < hi
      \<longrightarrow> interp_data s1 dt1 lo hi en1 = Inr (surface_of (\<lambda>row. row ! 0 * (hi - lo)) d1))
   \<and>
   (band_ready s2 dt2 en2 d2 \<and> redshift s2 = 0 \<and> k2 + 2 < length (ebin s2) \<and>
    0 < ebin s2 ! k2 \<and> ebin s2 ! k2 < ebin s2 ! (k2 + 2)
      \<longrightarrow> interp_data s2 dt2 (ebin s2 ! k2) (ebin s2 ! (k2 + 2)) en2
            = Inr (surface_of
                     (\<lambda>row. row ! k2 * (dE s2 ! k2) + row ! (k2 + 1) * (dE s2 ! (k2 + 1))) d2))
   \<and>
   (band_ready s3 dt3 en3 d3 \<and> redshift s3 = 0 \<and> Suc k3 < length (ebin s3) \<and>
    ebin s3 ! k3 < e_min \<and> e_min \<le> e_max \<and> e_max < ebin s3 ! Suc k3
      \<longrightarrow> interp_data s3 dt3 e_min e_max en3
            = Inr (surface_of (\<lambda>row. row ! k3 * (e_max - e_min)) d3)
          \<and> (\<forall>v. 0 < v \<longrightarrow> v * (e_max - e_min) < v * (dE s3 ! k3)))"
proof (intro conjI impI)
  assume "band_ready s1 dt1 en1 d1 \<and> redshift s1 = 0 \<and> ebin s1 = [lo, hi] \<and> 0 < lo \<and> lo < hi"
  then show "interp_data s1 dt1 lo hi en1 = Inr (surface_of (\<lambda>row. row ! 0 * (hi - lo)) d1)"
    using one_bin_integral[of s1 dt1 en1 d1 lo hi] by simp
next
  assume h: "band_ready s2 dt2 en2 d2 \<and> redshift s2 = 0 \<and> k2 + 2 < length (ebin s2) \<and>
             0 < ebin s2 ! k2 \<and> ebin s2 ! k2 < ebin s2 ! (k2 + 2)"
  then have "dE s2 = np_diff (ebin s2)" by (simp add: band_ready_def)
  then have "dE s2 ! k2 = ebin s2 ! (k2 + 1) - ebin s2 ! k2"
    and "dE s2 ! (k2 + 1) = ebin s2 ! (k2 + 2) - ebin s2 ! (k2 + 1)"
    using h by (simp_all add: np_diff_nth)
  then show "interp_data s2 dt2 (ebin s2 ! k2) (ebin s2 ! (k2 + 2)) en2
            = Inr (surface_of
                     (\<lambda>row. row ! k2 * (dE s2 ! k2) + row ! (k2 + 1) * (dE s2 ! (k2 + 1))) d2)"
    using two_bins_integral[of s2 dt2 en2 d2 k2] h by simp
next
  assume h: "band_ready s3 dt3 en3 d3 \<and> redshift s3 = 0 \<and> Suc k3 < length (ebin s3) \<and>
             ebin s3 ! k3 < e_min \<and> e_min \<le> e_max \<and> e_max < ebin s3 ! Suc k3"
  then show "interp_data s3 dt3 e_min e_max en3
            = Inr (surface_of (\<lambda>row. row ! k3 * (e_max - e_min)) d3)"
    using inside_one_bin_integral[of s3 dt3 en3 d3 k3 e_min e_max] by simp
next
  assume h: "band_ready s3 dt3 en3 d3 \<and> redshift s3 = 0 \<and> Suc k3 < length (ebin s3) \<and>
             ebin s3 ! k3 < e_min \<and> e_min \<le> e_max \<and> e_max < ebin s3 ! Suc k3"
  then have "dE s3 = np_diff (ebin s3)" by (simp add: band_ready_def)
  then have "dE s3 ! k3 = ebin s3 ! Suc k3 - ebin s3 ! k3"
    using h by (simp add: np_diff_nth)
  then have "e_max - e_min < dE s3 ! k3" using h by simp
  then show "\<forall>v. 0 < v \<longrightarrow> v * (e_max - e_min) < v * (dE s3 ! k3)"
    by simp
qed

theorem clipped_integral_exact_bin_identities_witness:
  "(band_ready (one_bin_table 1 3 5) ''primordial'' True (Arr2 [[5]]) \<and>
    redshift (one_bin_table 1 3 5) = 0 \<and> ebin (one_bin_table 1 3 5) = [1, 3] \<and>
    (0::real) < 1 \<and> (1::real) < 3 \<and>
    interp_data (one_bin_table 1 3 5) ''primordial'' 1 3 True = Inr (Surf1 [10]))
   \<and>
   (band_ready small_table ''primordial'' True (emissivity_primordial small_table) \<and>
    redshift small_table = 0 \<and> 0 + 2 < length (ebin small_table) \<and>
    0 < ebin small_table ! 0 \<and> ebin small_table ! 0 < ebin small_table ! (0 + 2) \<and>
    interp_data small_table ''primordial'' (1 / 10) 10 True
      = Inr (Surf1 [99 / 10 ^ 24, 99 / 10 ^ 24, 99 / 10 ^ 24]))
   \<and>
   (Suc 1 < length (ebin small_table) \<and>
    ebin small_table ! 1 < 2 \<and> (2::real) \<le> 3 \<and> 3 < ebin small_table ! Suc 1 \<and>
    interp_data small_table ''primordial'' 2 3 True
      = Inr (Surf1 [1 / 10 ^ 23, 1 / 10 ^ 23, 1 / 10 ^ 23]) \<and>
    (7::real) * (3 - 2) < 7 * (dE small_table ! 1))"
proof -
  have r1: "band_ready (one_bin_table 1 3 5) ''primordial'' True (Arr2 [[5]])"
    by (simp add: band_ready_def one_bin_table_def selected_data_def get_emissivity_def
                  last_axis_is_def)
  have e1: "redshift (one_bin_table 1 3 5) = 0" "ebin (one_bin_table 1 3 5) = [1, 3]"
    by (simp_all add: one_bin_table_def)
  have r2: "band_ready small_table ''primordial'' True
              (emissivity_primordial small_table)"
    by (simp add: band_ready_def small_table_def selected_data_def get_emissivity_def
                  last_axis_is_def)
  have e2: "redshift small_table = 0" "ebin small_table = [1 / 10, 1, 10]"
    "dE small_table = [9 / 10, 9]"
    "emissivity_primordial small_table
       = Arr2 [[1 / 10 ^ 23, 1 / 10 ^ 23], [1 / 10 ^ 23, 1 / 10 ^ 23],
               [1 / 10 ^ 23, 1 / 10 ^ 23]]"
    by (simp_all add: small_table_def np_diff_def)
  note inst = clipped_integral_exact_bin_identities
    [of "one_bin_table 1 3 5" "''primordial''" True "Arr2 [[5]]" 1 3
        small_table "''primordial''" True "emissivity_primordial small_table" 0
        small_table "''primordial''" True "emissivity_primordial small_table" 1 2 3]
  have p1: "interp_data (one_bin_table 1 3 5) ''primordial'' 1 3 True = Inr (Surf1 [10])"
    using inst r1 e1 by (simp add: surface_of_def)
  have p2: "interp_data small_table ''primordial'' (1 / 10) 10 True
              = Inr (Surf1 [99 / 10 ^ 24, 99 / 10 ^ 24, 99 / 10 ^ 24])"
    using inst r2 e2(1,2,3) by (simp add: surface_of_def e2(4))
  have p3: "interp_data small_table ''primordial'' 2 3 True
              = Inr (Surf1 [1 / 10 ^ 23, 1 / 10 ^ 23, 1 / 10 ^ 23])"
    and p4: "(7::real) * (3 - 2) < 7 * (dE small_table ! 1)"
    using inst r2 e2(1,2,3) by (simp_all add: surface_of_def e2(4))
  show ?thesis using r1 e1 r2 e2(1,2,3) p1 p2 p3 p4 by simp
qed

section \<open>Bin widths, midpoint energies and photon-count mode\<close>




lemma bin_midpoints_erg_length [simp]: "length (bin_midpoints_erg c E) = length E - 1"
  by (simp add: bin_midpoints_erg_def)







section \<open>The integrator after a call of \<open>get_interpolator\<close>\<close>

lemma unchanged_below_refl: "unchanged_below (next_addr st) st st"
  by (simp add: unchanged_below_def)

lemma unchanged_below_trans:
  "unchanged_below n st st1 \<Longrightarrow> unchanged_below (next_addr st1) st1 st2 \<Longrightarrow>
     unchanged_below n st st2"
  by (auto simp: unchanged_below_def)

lemma unchanged_below_trans_same:
  "unchanged_below n st st1 \<Longrightarrow> unchanged_below n st1 st2 \<Longrightarrow> unchanged_below n st st2"
  by (auto simp: unchanged_below_def)

lemma read_unchanged:
  assumes "unchanged_below n st st'" "a < n"
  shows "read_vec st' a = read_vec st a" "read_arr st' a = read_arr st a"
  using assms by (simp_all add: unchanged_below_def read_vec_def read_arr_def)

lemma the_integrator_unchanged:
  assumes "wf_state st" "unchanged_below (next_addr st) st st'"
  shows "the_integrator st' = the_integrator st"
proof -
  have s: "self st' = self st" using assms(2) by (simp add: unchanged_below_def)
  note r = read_unchanged[OF assms(2)]
  show ?thesis
    using assms(1) unfolding the_integrator_def s wf_state_def
    by (auto simp: r split: option.splits)
qed

lemma alloc_unchanged:
  "alloc b st = (a, st') \<Longrightarrow>
     a = next_addr st \<and> next_addr st' = Suc (next_addr st) \<and>
     unchanged_below (next_addr st) st st' \<and> cells st' a = Some b"
  by (auto simp: alloc_def unchanged_below_def)

lemma getattr_emissivity_spec:
  assumes "wf_state st"
  shows "(case getattr_emissivity (self st) dt of
            Inl e \<Rightarrow> get_emissivity (the_integrator st) dt = Inl e
          | Inr a \<Rightarrow> a < next_addr st \<and> get_emissivity (the_integrator st) dt = Inr (read_arr st a))"
  using assms
  by (auto simp: getattr_emissivity_def get_emissivity_def the_integrator_def wf_state_def
           split: option.splits)

lemma select_data_st_unchanged:
  "select_data_st st dt en = (r, st1) \<Longrightarrow> unchanged_below (next_addr st) st st1"
  by (auto simp: select_data_st_def unchanged_below_refl
           split: sum.splits if_splits prod.splits dest: alloc_unchanged)

lemma select_data_st_spec:
  assumes "wf_state st" "select_data_st st dt en = (r, st1)"
  shows "case r of
           Inl e \<Rightarrow> selected_data (the_integrator st) dt en = Inl e
         | Inr a \<Rightarrow> a < next_addr st1 \<and>
                     selected_data (the_integrator st) dt en = Inr (read_arr st1 a)"
proof (cases "getattr_emissivity (self st) dt")
  case (Inl e)
  then have "r = Inl e" using assms(2) by (simp add: select_data_st_def)
  moreover have "get_emissivity (the_integrator st) dt = Inl e"
    using getattr_emissivity_spec[OF assms(1), of dt] Inl by simp
  ultimately show ?thesis by (simp add: selected_data_def)
next
  case (Inr a0)
  then have a0: "a0 < next_addr st"
    and g: "get_emissivity (the_integrator st) dt = Inr (read_arr st a0)"
    using getattr_emissivity_spec[OF assms(1), of dt] by simp_all
  have em: "emid (the_integrator st) = read_vec st (emid_ref (self st))"
    by (simp add: the_integrator_def)
  show ?thesis
  proof (cases en)
    case True
    then have "r = Inr a0" "st1 = st"
      using Inr assms(2) by (simp_all add: select_data_st_def)
    then show ?thesis using True a0 g by (simp add: selected_data_def)
  next
    case False
    show ?thesis
    proof (cases "photon_data (read_vec st (emid_ref (self st))) (read_arr st a0)")
      case (Inl e)
      then have "r = Inl e"
        using \<open>getattr_emissivity (self st) dt = Inr a0\<close> False assms(2)
        by (simp add: select_data_st_def)
      then show ?thesis using Inl False g em by (simp add: selected_data_def)
    next
      case (Inr d)
      obtain a st' where al: "alloc (Arr d) st = (a, st')" by (cases "alloc (Arr d) st")
      then have "r = Inr a" "st1 = st'"
        using \<open>getattr_emissivity (self st) dt = Inr a0\<close> False Inr assms(2)
        by (simp_all add: select_data_st_def)
      moreover have "a < next_addr st'" "read_arr st' a = d"
        using alloc_unchanged[OF al] by (auto simp: read_arr_def)
      ultimately show ?thesis
        using False g em Inr by (simp add: selected_data_def)
    qed
  qed
qed

lemma view_slice_whole_contents:
  "view_contents st (view_slice (whole st a) i j) = py_slice (read_vec st a) i j"
  by (simp add: view_contents_def view_slice_def whole_def py_slice_def min_def)

lemma view_copy_spec:
  assumes "view_copy st v = (w, st2)"
  shows "base w = next_addr st" "start w = 0" "stop w = length (view_contents st v)"
    "next_addr st2 = Suc (next_addr st)" "unchanged_below (next_addr st) st st2"
    "read_vec st2 (next_addr st) = view_contents st v"
  using assms
  by (auto simp: view_copy_def alloc_def whole_def read_vec_def unchanged_below_def)

lemma view_isub_unchanged:
  "n \<le> base v \<Longrightarrow> n \<le> next_addr st \<Longrightarrow> unchanged_below n st (view_isub st v i x)"
  by (auto simp: view_isub_def unchanged_below_def Let_def)

lemma view_isub_read:
  "read_vec (view_isub st v i x) (base v)
     = (read_vec st (base v))[start v + i := read_vec st (base v) ! (start v + i) - x]"
  "a \<noteq> base v \<Longrightarrow> read_vec (view_isub st v i x) a = read_vec st a"
  "a \<noteq> base v \<Longrightarrow> read_arr (view_isub st v i x) a = read_arr st a"
  "self (view_isub st v i x) = self st"
  "next_addr (view_isub st v i x) = next_addr st"
  by (simp_all add: view_isub_def read_vec_def read_arr_def Let_def)

lemma my_dE_st_spec:
  assumes "my_dE_st st i j a b = (r, st4)"
    and "ebin_ref (self st) < next_addr st"
  shows "unchanged_below (next_addr st) st st4"
    and "next_addr st4 = Suc (next_addr st)"
    and "case r of
           Inl e \<Rightarrow> clipped_widths (read_vec st (ebin_ref (self st)))
                      (read_vec st (dE_ref (self st))) i j a b = Inl e
         | Inr w \<Rightarrow> clipped_widths (read_vec st (ebin_ref (self st)))
                      (read_vec st (dE_ref (self st))) i j a b = Inr (view_contents st4 w)"
proof -
  define v where "v = view_slice (whole st (dE_ref (self st))) i j"
  define xs where "xs = py_slice (read_vec st (dE_ref (self st))) i j"
  obtain w st2 where vc: "view_copy st v = (w, st2)" by (cases "view_copy st v")
  have cont: "view_contents st v = xs"
    by (simp add: v_def xs_def view_slice_whole_contents)
  note c = view_copy_spec[OF vc]
  have w: "base w = next_addr st" "start w = 0" "stop w = length xs"
    using c(1,2,3) cont by simp_all
  have self2: "self st2 = self st" using c(5) by (simp add: unchanged_below_def)
  have E2: "read_vec st2 (ebin_ref (self st)) = read_vec st (ebin_ref (self st))"
    using read_unchanged(1)[OF c(5) assms(2)] .
  have buf2: "read_vec st2 (next_addr st) = xs" using c(6) cont by simp
  have step: "\<And>s k x. next_addr st \<le> next_addr s \<Longrightarrow>
                  unchanged_below (next_addr st) s (view_isub s w k x)"
    using w(1) by (simp add: view_isub_unchanged)
  have n2: "next_addr st \<le> next_addr st2" using c(4) by simp
  show "unchanged_below (next_addr st) st st4"
  proof (cases "xs = []")
    case True
    then have "st4 = st2" using assms(1) vc w by (simp add: my_dE_st_def v_def[symmetric])
    then show ?thesis using c(5) by simp
  next
    case False
    define s3 where "s3 = view_isub st2 w 0 (a - read_vec st2 (ebin_ref (self st2)) ! i)"
    have "st4 = view_isub s3 w (stop w - start w - 1)
                  (read_vec s3 (ebin_ref (self s3)) ! j - b)"
      using assms(1) vc w False by (simp add: my_dE_st_def v_def[symmetric] Let_def s3_def)
    moreover have u3: "unchanged_below (next_addr st) st2 s3"
      unfolding s3_def by (rule step[OF n2])
    moreover have "next_addr st \<le> next_addr s3"
      using n2 by (simp add: s3_def view_isub_read)
    ultimately show ?thesis
      using c(5) step[of s3] unchanged_below_trans_same by blast
  qed
  show "next_addr st4 = Suc (next_addr st)"
    using assms(1) vc c(4) w
    by (auto simp: my_dE_st_def v_def[symmetric] Let_def view_isub_read split: if_splits)
  show "case r of
           Inl e \<Rightarrow> clipped_widths (read_vec st (ebin_ref (self st)))
                      (read_vec st (dE_ref (self st))) i j a b = Inl e
         | Inr w \<Rightarrow> clipped_widths (read_vec st (ebin_ref (self st)))
                      (read_vec st (dE_ref (self st))) i j a b = Inr (view_contents st4 w)"
  proof (cases "xs = []")
    case True
    then have "r = Inl IndexError"
      using assms(1) vc w by (simp add: my_dE_st_def v_def[symmetric])
    then show ?thesis
      using True by (simp add: clipped_widths_def xs_def[symmetric])
  next
    case False
    define st3 where "st3 = view_isub st2 w 0 (a - read_vec st2 (ebin_ref (self st2)) ! i)"
    define st4' where "st4' = view_isub st3 w (stop w - start w - 1)
                                (read_vec st3 (ebin_ref (self st3)) ! j - b)"
    have r: "r = Inr w" "st4 = st4'"
      using assms(1) vc w False
      by (simp_all add: my_dE_st_def v_def[symmetric] Let_def st3_def st4'_def)
    have ne: "ebin_ref (self st) \<noteq> base w" using assms(2) w(1) by simp
    have E3: "read_vec st3 (ebin_ref (self st3)) = read_vec st (ebin_ref (self st))"
      using ne by (simp add: st3_def view_isub_read self2 E2)
    have b3: "read_vec st3 (base w) = xs[0 := xs ! 0 - (a - read_vec st (ebin_ref (self st)) ! i)]"
      using view_isub_read(1)[of st2 w 0 "a - read_vec st2 (ebin_ref (self st2)) ! i"] w buf2
      by (simp add: st3_def self2 E2)
    have b4: "read_vec st4' (base w)
                = (xs[0 := xs ! 0 - (a - read_vec st (ebin_ref (self st)) ! i)])
                    [length xs - 1 :=
                       (xs[0 := xs ! 0 - (a - read_vec st (ebin_ref (self st)) ! i)])
                         ! (length xs - 1) - (read_vec st (ebin_ref (self st)) ! j - b)]"
      using view_isub_read(1)[of st3 w "stop w - start w - 1"
              "read_vec st3 (ebin_ref (self st3)) ! j - b"] w b3
      by (simp add: st4'_def E3)
    have "length (read_vec st4' (base w)) = length xs" by (simp add: b4)
    then have "view_contents st4' w = read_vec st4' (base w)"
      using w(2,3) by (simp add: view_contents_def py_slice_def)
    then show ?thesis
      using False r b4 by (simp add: clipped_widths_def xs_def[symmetric] Let_def)
  qed
qed

lemma unchanged_below_mono:
  "unchanged_below m st st' \<Longrightarrow> n \<le> m \<Longrightarrow> unchanged_below n st st'"
  by (auto simp: unchanged_below_def)

lemma integrate_band_st_spec:
  assumes "integrate_band_st st data a b = (r, st4)"
    and "ebin_ref (self st) < next_addr st" and "data < next_addr st"
  shows "unchanged_below (next_addr st) st st4"
    and "r = integrate_band (the_integrator st) (read_arr st data) a b"
proof -
  define a' where "a' = a * (1 + redshift_val (self st))"
  define b' where "b' = b * (1 + redshift_val (self st))"
  define E where "E = read_vec st (ebin_ref (self st))"
  define W where "W = read_vec st (dE_ref (self st))"
  define D where "D = read_arr st data"
  define R where "R = integrate_band (the_integrator st) D a b"
  have f: "ebin (the_integrator st) = E" "redshift (the_integrator st) = redshift_val (self st)"
    "dE (the_integrator st) = W"
    by (simp_all add: the_integrator_def E_def W_def)
  have ib: "R =
     (if E = [] then Inl IndexError
      else if energy_out_of_bounds a' b' (hd E) (last E)
      then Inl (EnergyBoundsException (hd E) (last E))
      else (case bracket E a' b' of
              Inl e \<Rightarrow> Inl e
            | Inr (i, j) \<Rightarrow>
                (case clipped_widths E W i j a' b' of
                   Inl e \<Rightarrow> Inl e
                 | Inr w \<Rightarrow> sum_last_axis i j w D)))"
    unfolding R_def integrate_band_def f Let_def a'_def b'_def by (rule refl)
  have ibs: "(r, st4) =
     (if E = [] then (Inl IndexError, st)
      else if energy_out_of_bounds a' b' (hd E) (last E)
      then (Inl (EnergyBoundsException (hd E) (last E)), st)
      else (case bracket E a' b' of
              Inl e \<Rightarrow> (Inl e, st)
            | Inr (i, j) \<Rightarrow>
                (case my_dE_st st i j a' b' of
                   (Inl e, s4) \<Rightarrow> (Inl e, s4)
                 | (Inr w, s4) \<Rightarrow>
                     (sum_last_axis i j (view_contents s4 w) (read_arr s4 data), s4))))"
    using assms(1) unfolding integrate_band_st_def Let_def a'_def b'_def E_def by (rule sym)
  have both: "unchanged_below (next_addr st) st st4 \<and> r = R"
  proof (cases "E = [] \<or> energy_out_of_bounds a' b' (hd E) (last E)")
    case True
    then have "st4 = st" and "r = R"
      using ibs ib by (auto split: if_splits)
    then show ?thesis by (simp add: unchanged_below_refl)
  next
    case False
    show ?thesis
    proof (cases "bracket E a' b'")
      case (Inl e)
      then have "st4 = st" and "r = R"
        using ibs ib False by auto
      then show ?thesis by (simp add: unchanged_below_refl)
    next
      case (Inr ij)
      obtain i j where ij: "ij = (i, j)" by (cases ij)
      obtain rw sw where m: "my_dE_st st i j a' b' = (rw, sw)"
        by (cases "my_dE_st st i j a' b'")
      note sp = my_dE_st_spec[OF m assms(2), folded E_def W_def]
      have rd: "read_arr sw data = D"
        using read_unchanged(2)[OF sp(1) assms(3)] by (simp add: D_def)
      have R: "R = (case clipped_widths E W i j a' b' of
                      Inl e \<Rightarrow> Inl e | Inr w \<Rightarrow> sum_last_axis i j w D)"
        using ib False Inr ij by simp
      have rs: "(r, st4) = (case rw of Inl e \<Rightarrow> (Inl e, sw)
                  | Inr w \<Rightarrow> (sum_last_axis i j (view_contents sw w) D, sw))"
        using ibs False Inr ij m rd by (simp split: sum.splits)
      have "st4 = sw" using rs by (cases rw) simp_all
      moreover have "r = R"
      proof (cases rw)
        case (Inl e)
        then show ?thesis using rs R sp(3) by simp
      next
        case (Inr w)
        then show ?thesis using rs R sp(3) by simp
      qed
      ultimately show ?thesis using sp(1) by simp
    qed
  qed
  show "unchanged_below (next_addr st) st st4"
    and "r = integrate_band (the_integrator st) (read_arr st data) a b"
    using both by (simp_all add: R_def D_def)
qed

lemma get_interpolator_st_spec:
  assumes "wf_state st" and "get_interpolator_st st dt a b en = (r, st')"
  shows "unchanged_below (next_addr st) st st'"
    and "r = get_interpolator (the_integrator st) dt a b en"
proof -
  obtain rs st1 where sel: "select_data_st st dt en = (rs, st1)"
    by (cases "select_data_st st dt en")
  have u1: "unchanged_below (next_addr st) st st1" using select_data_st_unchanged[OF sel] .
  note sp = select_data_st_spec[OF assms(1) sel]
  have both: "unchanged_below (next_addr st) st st' \<and>
              r = get_interpolator (the_integrator st) dt a b en"
  proof (cases rs)
    case (Inl e)
    then have "r = Inl e" "st' = st1"
      using assms(2) sel by (auto simp: get_interpolator_st_def)
    moreover have "selected_data (the_integrator st) dt en = Inl e" using sp Inl by simp
    ultimately show ?thesis
      using u1 by (simp add: get_interpolator_def interp_data_def)
  next
    case (Inr data)
    then have d: "data < next_addr st1"
      and sd: "selected_data (the_integrator st) dt en = Inr (read_arr st1 data)"
      using sp by simp_all
    have s1: "self st1 = self st" and n1: "next_addr st \<le> next_addr st1"
      using u1 by (simp_all add: unchanged_below_def)
    have e1: "ebin_ref (self st1) < next_addr st1"
      using assms(1) s1 n1 by (simp add: wf_state_def)
    have t1: "the_integrator st1 = the_integrator st"
      using the_integrator_unchanged[OF assms(1) u1] .
    obtain rb st4 where ib: "integrate_band_st st1 data a b = (rb, st4)"
      by (cases "integrate_band_st st1 data a b")
    note ibs = integrate_band_st_spec[OF ib e1 d]
    have u4: "unchanged_below (next_addr st) st st4"
      using unchanged_below_trans_same[OF u1 unchanged_below_mono[OF ibs(1) n1]] .
    have t4: "the_integrator st4 = the_integrator st"
      using the_integrator_unchanged[OF assms(1) u4] .
    have rb: "rb = interp_data (the_integrator st) dt a b en"
      using ibs(2) sd t1 by (simp add: interp_data_def)
    have "st' = st4"
      using assms(2) sel Inr ib by (auto simp: get_interpolator_st_def split: sum.splits)
    moreover have "r = get_interpolator (the_integrator st) dt a b en"
      using assms(2) sel Inr ib rb t4
      by (auto simp: get_interpolator_st_def get_interpolator_def split: sum.splits)
    ultimately show ?thesis using u4 by simp
  qed
  show "unchanged_below (next_addr st) st st'"
    and "r = get_interpolator (the_integrator st) dt a b en"
    using both by simp_all
qed

lemma wf_state_unchanged:
  assumes "wf_state st" "unchanged_below (next_addr st) st st'"
  shows "wf_state st'"
  using assms by (auto simp: wf_state_def unchanged_below_def split: option.splits)

lemma small_state_wf: "wf_state small_state"
  by (simp add: wf_state_def small_state_def)

lemma small_state_run:
  "next_addr (snd (get_interpolator_st small_state ''primordial'' (1 / 2) 5 False)) = 7"
  by (simp add: get_interpolator_st_def select_data_st_def getattr_emissivity_def small_state_def
        photon_data_def divide_row_def np_broadcast2_def read_vec_def read_arr_def alloc_def
        integrate_band_st_def Let_def energy_out_of_bounds_def np_divide_def bracket_def
        np_digitize_def np_clip_def my_dE_st_def view_copy_def view_slice_def whole_def
        view_contents_def py_slice_def view_isub_def sum_last_axis_def integrate_row_def
        split: sum.splits prod.splits)

text \<open>
  C9. Every call of \<open>get_interpolator\<close>, whether it returns an interpolator or raises, leaves
  the integrator as it was: the attributes are bound to the same arrays, every array that
  existed before the call has the same contents, so \<open>log_T\<close>, \<open>log_nH\<close>,
  \<open>emissivity_primordial\<close>, \<open>emissivity_metals\<close>, \<open>ebin\<close>, \<open>dE\<close>, \<open>emid\<close> and the redshift
  are what they were (the two \<open>-=\<close> write into the copy of the slice of \<open>dE\<close>, the
  photon-mode division makes a new array). The result is the one computed from the arrays
  before the call, and a second call with the same arguments gives the same result.
\<close>

theorem get_interpolator_leaves_integrator_unchanged:
  assumes "wf_state st"
    and "get_interpolator_st st data_type e_min e_max energy = (r, st')"
  shows "the_integrator st' = the_integrator st
       \<and> self st' = self st
       \<and> (\<forall>p < next_addr st. cells st' p = cells st p)
       \<and> r = get_interpolator (the_integrator st) data_type e_min e_max energy
       \<and> fst (get_interpolator_st st' data_type e_min e_max energy) = r"
proof -
  note sp = get_interpolator_st_spec[OF assms]
  have t: "the_integrator st' = the_integrator st"
    using the_integrator_unchanged[OF assms(1) sp(1)] .
  have wf': "wf_state st'" using wf_state_unchanged[OF assms(1) sp(1)] .
  obtain r2 st2 where again: "get_interpolator_st st' data_type e_min e_max energy = (r2, st2)"
    by (cases "get_interpolator_st st' data_type e_min e_max energy")
  have "r2 = r" using get_interpolator_st_spec(2)[OF wf' again] sp(2) t by simp
  then show ?thesis using t sp again by (simp add: unchanged_below_def)
qed

theorem get_interpolator_leaves_integrator_unchanged_witness:
  "wf_state small_state \<and>
   dE (the_integrator (snd (get_interpolator_st small_state ''primordial'' (1 / 2) 5 False)))
     = [9 / 10, 9] \<and>
   the_integrator (snd (get_interpolator_st small_state ''primordial'' (1 / 2) 5 False))
     = the_integrator small_state \<and>
   cells (snd (get_interpolator_st small_state ''primordial'' (1 / 2) 5 False)) 3
     = Some (Vec [9 / 10, 9]) \<and>
   next_addr (snd (get_interpolator_st small_state ''primordial'' (1 / 2) 5 False)) = 7 \<and>
   fst (get_interpolator_st
          (snd (get_interpolator_st small_state ''primordial'' (1 / 2) 5 False))
          ''primordial'' (1 / 2) 5 False)
     = fst (get_interpolator_st small_state ''primordial'' (1 / 2) 5 False)"
proof -
  have c: "cells small_state 3 = Some (Vec [9 / 10, 9])" "(3::nat) < next_addr small_state"
    "dE (the_integrator small_state) = [9 / 10, 9]"
    by (simp_all add: small_state_def the_integrator_def read_vec_def)
  show ?thesis
    using get_interpolator_leaves_integrator_unchanged[OF small_state_wf prod.collapse[symmetric],
            of "''primordial''" "1 / 2" 5 False]
      small_state_wf c small_state_run
    by simp
qed

end
